theory Spec2Isabelle
  imports Complex_Main
begin

section \<open>WeatherRetro: the data pipeline of docs/main.js\<close>

text \<open>
  The dashboard's program is the Python text that \<^verbatim>\<open>docs/main.js\<close> hands to the
  embedded interpreter. Its pipeline is
  \<^verbatim>\<open>load_data\<close> (fetch) \<open>\<rightarrow>\<close> \<^verbatim>\<open>preprocess_data\<close> (clean) \<open>\<rightarrow>\<close> \<^verbatim>\<open>select_data\<close>
  (day-of-year filter) \<open>\<rightarrow>\<close> \<^verbatim>\<open>plot_data\<close> (statistics and layout).

  Numbers are modelled as exact rationals and the missing marker NaN as \<open>None\<close>.
  Rounding is not modelled: the narrowing to 32-bit floats is a parameter \<open>f32\<close> of the
  cleaning stage, and the numeric parser of the CSV library is a parameter \<open>parse\<close>.
  The calls that only draw (hvplot, holoviews, panel widgets) are left out; every
  statement of \<^verbatim>\<open>plot_data\<close> that computes a statistic or can raise on the
  table is kept, in the order of the source.
\<close>

subsection \<open>Data model\<close>

text \<open>The Python exceptions the pipeline can raise on a table.\<close>

datatype pyerror = KeyError "string list" | ValueError | IndexError | TypeError

text \<open>A calendar date: \<^verbatim>\<open>datetime.date\<close> and the entries of the date index.\<close>

record date =
  year :: int
  month :: nat
  day :: nat

text \<open>
  A cell as \<^verbatim>\<open>pd.read_csv\<close> leaves it: a number, a string that was not read as
  a number (such as the missing-data code M), or NaN for an empty field.
\<close>

datatype raw = RNum rat | RStr string | RNaN

text \<open>A cell of a float column: a number, or \<open>None\<close> for NaN.\<close>

type_synonym cell = "rat option"

text \<open>
  A cell of the table inside \<^verbatim>\<open>plot_data\<close>, where the float columns stand next to
  the categorical column \<^verbatim>\<open>score\<close> whose values are the half-open year intervals
  \<open>(lo, hi]\<close> of \<^verbatim>\<open>pd.cut\<close>.
\<close>

datatype scell = Flt cell | Cat "(int \<times> int) option"

text \<open>
  A DataFrame: the date index (\<^verbatim>\<open>index_col="day", parse_dates=True\<close>) and the named
  columns in their order, each column holding one cell per index entry.
\<close>

record 'c frame =
  index :: "date list"
  columns :: "(string \<times> 'c list) list"

definition wf_frame :: "'c frame \<Rightarrow> bool" where
  "wf_frame df = list_all (\<lambda>(n, xs). length xs = length (index df)) (columns df)"

text \<open>The rows of a table, top to bottom: the index label with the named cells.\<close>

fun rows_of :: "date list \<Rightarrow> (string \<times> 'c list) list \<Rightarrow> (date \<times> (string \<times> 'c) list) list" where
  "rows_of [] cols = []"
| "rows_of (d # ds) cols =
     (d, map (\<lambda>(n, xs). (n, hd xs)) cols) # rows_of ds (map (\<lambda>(n, xs). (n, tl xs)) cols)"

definition rows :: "'c frame \<Rightarrow> (date \<times> (string \<times> 'c) list) list" where
  "rows df = rows_of (index df) (columns df)"

subsection \<open>Table operations of the library, as the pipeline calls them\<close>

text \<open>
  \<^verbatim>\<open>df.drop(columns=names)\<close>: raises KeyError with the labels that are not columns
  (the default \<^verbatim>\<open>errors="raise"\<close>), otherwise removes every column so named.
\<close>

definition drop_columns :: "string list \<Rightarrow> 'c frame \<Rightarrow> pyerror + 'c frame" where
  "drop_columns names df =
     (case filter (\<lambda>n. n \<notin> set (map fst (columns df))) names of
        [] \<Rightarrow> Inr \<lparr>index = index df,
                   columns = filter (\<lambda>(n, xs). n \<notin> set names) (columns df)\<rparr>
      | missing \<Rightarrow> Inl (KeyError missing))"

text \<open>\<^verbatim>\<open>df.apply(f)\<close>: \<open>f\<close> on every column.\<close>

definition apply_columns :: "('a list \<Rightarrow> 'b list) \<Rightarrow> 'a frame \<Rightarrow> 'b frame" where
  "apply_columns f df = \<lparr>index = index df, columns = map (\<lambda>(n, xs). (n, f xs)) (columns df)\<rparr>"

text \<open>
  \<^verbatim>\<open>pd.to_numeric(column, errors="coerce")\<close>: a number stays, a string is parsed and
  becomes NaN where parsing fails, NaN stays.
\<close>

fun coerce :: "(string \<Rightarrow> rat option) \<Rightarrow> raw \<Rightarrow> cell" where
  "coerce parse (RNum r) = Some r"
| "coerce parse (RStr s) = parse s"
| "coerce parse RNaN = None"

definition to_numeric :: "(string \<Rightarrow> rat option) \<Rightarrow> raw list \<Rightarrow> cell list" where
  "to_numeric parse xs = map (coerce parse) xs"

text \<open>\<^verbatim>\<open>df.astype("float32")\<close>: every number narrowed, NaN kept.\<close>

definition astype :: "(rat \<Rightarrow> rat) \<Rightarrow> cell frame \<Rightarrow> cell frame" where
  "astype f32 df = apply_columns (map (map_option f32)) df"

text \<open>\<^verbatim>\<open>df.loc[mask]\<close> with a boolean mask: the rows where the mask is true.\<close>

definition pick :: "bool list \<Rightarrow> 'a list \<Rightarrow> 'a list" where
  "pick keep xs = map snd (filter fst (zip keep xs))"

definition loc_mask :: "bool list \<Rightarrow> 'c frame \<Rightarrow> 'c frame" where
  "loc_mask keep df =
     \<lparr>index = pick keep (index df), columns = map (\<lambda>(n, xs). (n, pick keep xs)) (columns df)\<rparr>"

text \<open>
  \<^verbatim>\<open>df.assign(name=col)\<close>: the column replaces one of that name where it stands, or
  is appended.
\<close>

definition assign :: "string \<Rightarrow> 'c list \<Rightarrow> 'c frame \<Rightarrow> 'c frame" where
  "assign name col df =
     \<lparr>index = index df,
      columns = (if name \<in> set (map fst (columns df))
                 then map (\<lambda>(n, xs). if n = name then (n, col) else (n, xs)) (columns df)
                 else columns df @ [(name, col)])\<rparr>"

text \<open>\<^verbatim>\<open>range(start, stop, step)\<close> for a positive step.\<close>

definition py_range :: "int \<Rightarrow> int \<Rightarrow> int \<Rightarrow> int list" where
  "py_range start stop step =
     map (\<lambda>k. start + step * int k) [0..<nat ((stop - start + step - 1) div step)]"

text \<open>
  \<^verbatim>\<open>pd.cut(x, bins)\<close> with a list of bin edges and the defaults \<^verbatim>\<open>right=True\<close>,
  \<^verbatim>\<open>include_lowest=False\<close>: a value gets the interval \<open>(lo, hi]\<close> of two neighbouring
  edges that holds it, and NaN when no interval does.
\<close>

fun cut1 :: "int list \<Rightarrow> int \<Rightarrow> (int \<times> int) option" where
  "cut1 (lo # hi # edges) x =
     (if lo < x \<and> x \<le> hi then Some (lo, hi) else cut1 (hi # edges) x)"
| "cut1 edges x = None"

definition pd_cut :: "int list \<Rightarrow> int list \<Rightarrow> (int \<times> int) option list" where
  "pd_cut xs edges = map (cut1 edges) xs"

text \<open>\<^verbatim>\<open>df.dropna(subset=[name])\<close>: KeyError for an unknown column, otherwise the rows
  whose cell in that column is not NaN.\<close>

fun notna :: "scell \<Rightarrow> bool" where
  "notna (Flt c) = (c \<noteq> None)"
| "notna (Cat c) = (c \<noteq> None)"

definition dropna :: "string \<Rightarrow> scell frame \<Rightarrow> pyerror + scell frame" where
  "dropna name df =
     (case map_of (columns df) name of
        None \<Rightarrow> Inl (KeyError [name])
      | Some col \<Rightarrow> Inr (loc_mask (map notna col) df))"

text \<open>\<^verbatim>\<open>df[name]\<close>: the column as a series, here its cells.\<close>

definition getitem :: "'c frame \<Rightarrow> string \<Rightarrow> pyerror + 'c list" where
  "getitem df name =
     (case map_of (columns df) name of None \<Rightarrow> Inl (KeyError [name]) | Some col \<Rightarrow> Inr col)"

text \<open>\<^verbatim>\<open>df.iloc[-1][name]\<close>: the cell of the last row; IndexError on a table with no
  row.\<close>

definition iloc_last :: "'c frame \<Rightarrow> string \<Rightarrow> pyerror + 'c" where
  "iloc_last df name =
     (if index df = [] then Inl IndexError
      else case map_of (columns df) name of
             None \<Rightarrow> Inl (KeyError [name])
           | Some col \<Rightarrow> if col = [] then Inl IndexError else Inr (last col))"

text \<open>\<^verbatim>\<open>series.item()\<close>: the only element; ValueError unless there is exactly one.\<close>

definition item :: "'a list \<Rightarrow> pyerror + 'a" where
  "item xs = (case xs of [x] \<Rightarrow> Inr x | _ \<Rightarrow> Inl ValueError)"

text \<open>
  The numbers of a series for the numeric reductions; a categorical or missing cell
  is a TypeError there.
\<close>

fun number :: "scell \<Rightarrow> pyerror + rat" where
  "number (Flt (Some v)) = Inr v"
| "number (Flt None) = Inl TypeError"
| "number (Cat c) = Inl TypeError"

fun numbers :: "scell list \<Rightarrow> pyerror + rat list" where
  "numbers [] = Inr []"
| "numbers (c # cs) =
     (case number c of
        Inl e \<Rightarrow> Inl e
      | Inr v \<Rightarrow> (case numbers cs of Inl e \<Rightarrow> Inl e | Inr vs \<Rightarrow> Inr (v # vs)))"

text \<open>
  \<^verbatim>\<open>series.min()\<close>, \<^verbatim>\<open>series.idxmin()\<close> and their maximum twins over the labelled
  values of a series. The scan keeps the entry seen first among equal extremes, so the
  label is that of the first occurrence. \<^verbatim>\<open>idxmin\<close> of an empty series raises
  ValueError; \<^verbatim>\<open>min\<close> of an empty series is NaN.
\<close>

fun argmin_from :: "'i \<times> rat \<Rightarrow> ('i \<times> rat) list \<Rightarrow> 'i \<times> rat" where
  "argmin_from best [] = best"
| "argmin_from best (x # xs) = argmin_from (if snd x < snd best then x else best) xs"

fun argmax_from :: "'i \<times> rat \<Rightarrow> ('i \<times> rat) list \<Rightarrow> 'i \<times> rat" where
  "argmax_from best [] = best"
| "argmax_from best (x # xs) = argmax_from (if snd best < snd x then x else best) xs"

definition idxmin :: "('i \<times> rat) list \<Rightarrow> pyerror + 'i" where
  "idxmin s = (case s of [] \<Rightarrow> Inl ValueError | x # xs \<Rightarrow> Inr (fst (argmin_from x xs)))"

definition idxmax :: "('i \<times> rat) list \<Rightarrow> pyerror + 'i" where
  "idxmax s = (case s of [] \<Rightarrow> Inl ValueError | x # xs \<Rightarrow> Inr (fst (argmax_from x xs)))"

definition series_min :: "rat list \<Rightarrow> cell" where
  "series_min xs = (case xs of [] \<Rightarrow> None | x # ys \<Rightarrow> Some (fold min ys x))"

definition series_max :: "rat list \<Rightarrow> cell" where
  "series_max xs = (case xs of [] \<Rightarrow> None | x # ys \<Rightarrow> Some (fold max ys x))"

text \<open>\<^verbatim>\<open>series.mean()\<close> and \<^verbatim>\<open>series.median()\<close>; NaN on an empty series.\<close>

definition mean :: "rat list \<Rightarrow> cell" where
  "mean xs = (if xs = [] then None else Some (sum_list xs / of_nat (length xs)))"

definition median :: "rat list \<Rightarrow> cell" where
  "median xs =
     (let ys = sort xs; n = length ys
      in if n = 0 then None
         else if even n then Some ((ys ! (n div 2 - 1) + ys ! (n div 2)) / 2)
         else Some (ys ! (n div 2)))"

text \<open>
  \<^verbatim>\<open>scipy.stats.percentileofscore(a, score, kind)\<close> for a score that is a number:
  100 on an empty series, otherwise by kind.
\<close>

datatype kind = Rank | Weak | Strict | Mean

definition count_lt :: "rat list \<Rightarrow> rat \<Rightarrow> nat" where
  "count_lt a score = length (filter (\<lambda>v. v < score) a)"

definition count_le :: "rat list \<Rightarrow> rat \<Rightarrow> nat" where
  "count_le a score = length (filter (\<lambda>v. v \<le> score) a)"

definition percentileofscore :: "rat list \<Rightarrow> rat \<Rightarrow> kind \<Rightarrow> rat" where
  "percentileofscore a score k =
     (let n = length a; left = count_lt a score; right = count_le a score
      in if n = 0 then 100
         else case k of
                Rank \<Rightarrow> of_nat (right + left + (if left < right then 1 else 0)) * 50 / of_nat n
              | Strict \<Rightarrow> of_nat left / of_nat n * 100
              | Weak \<Rightarrow> of_nat right / of_nat n * 100
              | Mean \<Rightarrow> of_nat (left + right) / of_nat n * 50)"

subsection \<open>The pipeline stages\<close>

text \<open>
  \<^verbatim>\<open>preprocess_data\<close>: drop the station column, coerce every column to numeric,
  narrow to float32.
\<close>

definition preprocess_data ::
  "(string \<Rightarrow> rat option) \<Rightarrow> (rat \<Rightarrow> rat) \<Rightarrow> raw frame \<Rightarrow> pyerror + cell frame" where
  "preprocess_data parse f32 df =
     (case drop_columns [''station''] df of
        Inl e \<Rightarrow> Inl e
      | Inr d \<Rightarrow> Inr (astype f32 (apply_columns (to_numeric parse) d)))"

text \<open>\<^verbatim>\<open>select_data\<close>: the rows whose index has the month and the day of the date.\<close>

definition select_data :: "date \<Rightarrow> cell frame \<Rightarrow> cell frame" where
  "select_data dt preprocess_df =
     loc_mask (map (\<lambda>d. month d = month dt \<and> day d = day dt) (index preprocess_df))
       preprocess_df"

text \<open>The bin edges of \<^verbatim>\<open>plot_data\<close>: \<^verbatim>\<open>range(1930, 2060, 20)\<close>.\<close>

definition bins :: "int list" where
  "bins = py_range 1930 2060 20"

text \<open>
  What \<^verbatim>\<open>plot_data\<close> computes for its layout: the number of years in the title, the
  station's name, the highlighted value \<^verbatim>\<open>weather_date\<close> and the year written next
  to it (\<^verbatim>\<open>f"{date:%Y}"\<close>, also in the name of the percentile widget), the average,
  minimum and maximum with their index labels, the median, the percentile, and the
  \<^verbatim>\<open>score\<close> column that groups the density plot.
\<close>

record summary =
  n_years :: nat
  station_name :: string
  weather_date :: rat
  date_label :: int
  weather_average :: cell
  min_value :: cell
  min_idx :: date
  max_value :: cell
  max_idx :: date
  median_value :: cell
  percentile :: rat
  score :: "(int \<times> int) option list"

text \<open>The interval in a cell of the \<^verbatim>\<open>score\<close> column.\<close>

fun interval :: "scell \<Rightarrow> (int \<times> int) option" where
  "interval (Cat c) = c"
| "interval (Flt c) = None"

text \<open>
  \<^verbatim>\<open>plot_data(date, network, station, select_df, weather_var)\<close>. The network only
  enters through the catalogue \<^verbatim>\<open>load_station_df(network)\<close>, which is the argument
  \<open>station_df\<close>: the list of station identifier and name. The steps, with their lines
  in \<^verbatim>\<open>docs/main.js\<close>:
  \<^item> 167-171: assign the \<^verbatim>\<open>score\<close> column, drop the rows without a value of the variable;
  \<^item> 173-174: the catalogue row of the station and its name (\<^verbatim>\<open>item()\<close>);
  \<^item> 175: the series \<^verbatim>\<open>weather_df\<close> of the variable;
  \<^item> 185: \<^verbatim>\<open>weather_date\<close>, the cell of the last row;
  \<^item> 188: the first numeric reduction of the series (the average), line 193 the first
    arithmetic on \<^verbatim>\<open>weather_date\<close>;
  \<^item> 209-238: minimum, maximum and their index labels, average, median;
  \<^item> 255: the percentile of \<^verbatim>\<open>weather_date\<close> in the series, kind strict.
\<close>

definition plot_data ::
  "date \<Rightarrow> (string \<times> string) list \<Rightarrow> string \<Rightarrow> cell frame \<Rightarrow> string \<Rightarrow> pyerror + summary" where
  "plot_data dt station_df station select_df weather_var =
     (case dropna weather_var
             (assign ''score'' (map Cat (pd_cut (map year (index select_df)) bins))
                (apply_columns (map Flt) select_df)) of
        Inl e \<Rightarrow> Inl e
      | Inr sdf \<Rightarrow>
     (case item (map snd (filter (\<lambda>(stid, name). stid = station) station_df)) of
        Inl e \<Rightarrow> Inl e
      | Inr label \<Rightarrow>
     (case getitem sdf weather_var of
        Inl e \<Rightarrow> Inl e
      | Inr weather_df \<Rightarrow>
     (case iloc_last sdf weather_var of
        Inl e \<Rightarrow> Inl e
      | Inr last_cell \<Rightarrow>
     (case numbers weather_df of
        Inl e \<Rightarrow> Inl e
      | Inr vals \<Rightarrow>
     (case number last_cell of
        Inl e \<Rightarrow> Inl e
      | Inr target \<Rightarrow>
     (case idxmin (zip (index sdf) vals) of
        Inl e \<Rightarrow> Inl e
      | Inr lo_idx \<Rightarrow>
     (case idxmax (zip (index sdf) vals) of
        Inl e \<Rightarrow> Inl e
      | Inr hi_idx \<Rightarrow>
          Inr \<lparr>n_years = length weather_df,
               station_name = label,
               weather_date = target,
               date_label = year dt,
               weather_average = mean vals,
               min_value = series_min vals,
               min_idx = lo_idx,
               max_value = series_max vals,
               max_idx = hi_idx,
               median_value = median vals,
               percentile = percentileofscore vals target Strict,
               score = (case map_of (columns sdf) ''score'' of
                          None \<Rightarrow> []
                        | Some col \<Rightarrow> map interval col)\<rparr>))))))))"

text \<open>
  \<^verbatim>\<open>update_dashboard\<close> after the fetch: clean, filter by the day of the year,
  compute.
\<close>

definition update_dashboard ::
  "(string \<Rightarrow> rat option) \<Rightarrow> (rat \<Rightarrow> rat) \<Rightarrow> (string \<times> string) list \<Rightarrow>
   date \<Rightarrow> string \<Rightarrow> raw frame \<Rightarrow> string \<Rightarrow> pyerror + summary" where
  "update_dashboard parse f32 station_df dt station df weather_var =
     (case preprocess_data parse f32 df of
        Inl e \<Rightarrow> Inl e
      | Inr preprocess_df \<Rightarrow>
          plot_data dt station_df station (select_data dt preprocess_df) weather_var)"

subsection \<open>The series of a variable\<close>

text \<open>
  The series the statistics are about: the index labels and values of the rows of a
  table whose cell of the variable is not missing, in the order of the table.
\<close>

definition variable_series :: "cell frame \<Rightarrow> string \<Rightarrow> (date \<times> rat) list" where
  "variable_series df var =
     (case map_of (columns df) var of
        None \<Rightarrow> []
      | Some col \<Rightarrow> concat (map (\<lambda>(d, c). case c of None \<Rightarrow> [] | Some v \<Rightarrow> [(d, v)])
                              (zip (index df) col)))"

subsection \<open>The cache of the decorated stages\<close>

text \<open>
  Modelled from the spec: the memoiser behind the decorator \<^verbatim>\<open>@pn.cache()\<close> on
  \<^verbatim>\<open>load_data\<close>, \<^verbatim>\<open>select_data\<close>, \<^verbatim>\<open>load_station_df\<close> and \<^verbatim>\<open>info\<close> is code of the
  panel library and is not part of the sources. The spec's contract is
  \<^verbatim>\<open>getOrCompute(stageId, key, computeFn) -> value\<close>: a store from stage and key to
  value; a key that is stored returns its value, a key that is not stored runs the
  compute function and stores the result. The compute function acts on a world \<open>'w\<close>
  (a call counter, the network), so that running it is visible.
\<close>

definition getOrCompute ::
  "'s \<Rightarrow> 'k \<Rightarrow> ('k \<Rightarrow> 'w \<Rightarrow> 'v \<times> 'w) \<Rightarrow> ('s \<times> 'k \<rightharpoonup> 'v) \<times> 'w \<Rightarrow>
   'v \<times> (('s \<times> 'k \<rightharpoonup> 'v) \<times> 'w)" where
  "getOrCompute stageId key computeFn st =
     (case fst st (stageId, key) of
        Some v \<Rightarrow> (v, st)
      | None \<Rightarrow> (case computeFn key (snd st) of
                   (v, w) \<Rightarrow> (v, ((fst st)((stageId, key) \<mapsto> v), w))))"

text \<open>
  The two cached stages of the pipeline under that contract, the world being the
  number of times a stage's body has run. \<open>fetch\<close> stands for the download of
  \<^verbatim>\<open>load_data\<close>.
\<close>

definition load_data_cached ::
  "(date \<times> string \<times> string \<Rightarrow> raw frame) \<Rightarrow> date \<Rightarrow> string \<Rightarrow> string \<Rightarrow>
   (string \<times> date \<times> string \<times> string \<rightharpoonup> raw frame) \<times> nat \<Rightarrow>
   raw frame \<times> ((string \<times> date \<times> string \<times> string \<rightharpoonup> raw frame) \<times> nat)" where
  "load_data_cached fetch dt network station =
     getOrCompute ''load_data'' (dt, network, station) (\<lambda>k calls. (fetch k, Suc calls))"

definition select_data_cached ::
  "date \<Rightarrow> cell frame \<Rightarrow> (string \<times> date \<times> cell frame \<rightharpoonup> cell frame) \<times> nat \<Rightarrow>
   cell frame \<times> ((string \<times> date \<times> cell frame \<rightharpoonup> cell frame) \<times> nat)" where
  "select_data_cached dt preprocess_df =
     getOrCompute ''select_data'' (dt, preprocess_df)
       (\<lambda>k calls. (select_data (fst k) (snd k), Suc calls))"

section \<open>Properties\<close>

subsection \<open>Row selection by a mask\<close>

lemma pick_Nil [simp]: "pick m [] = []" "pick [] xs = []"
  by (simp_all add: pick_def)

lemma pick_Cons [simp]: "pick (b # m) (x # xs) = (if b then x # pick m xs else pick m xs)"
  by (simp add: pick_def)

lemma pick_map: "pick m (map f xs) = map f (pick m xs)"
proof (induction m arbitrary: xs)
  case Nil then show ?case by simp
next
  case (Cons b m) then show ?case by (cases xs) simp_all
qed

lemma pick_zip: "pick m (zip xs ys) = zip (pick m xs) (pick m ys)"
proof (induction m arbitrary: xs ys)
  case Nil then show ?case by simp
next
  case (Cons b m) then show ?case by (cases xs; cases ys) simp_all
qed

lemma pick_map_self: "pick (map P xs) xs = filter P xs"
  by (induction xs) simp_all

lemma length_pick: "length xs = length ys \<Longrightarrow> length (pick m xs) = length (pick m ys)"
proof (induction m arbitrary: xs ys)
  case Nil then show ?case by simp
next
  case (Cons b m) then show ?case by (cases xs; cases ys) simp_all
qed

lemma rows_of_pick:
  "list_all (\<lambda>(n, xs). length xs = length idx) cols \<Longrightarrow>
   rows_of (pick (map P idx) idx) (map (\<lambda>(n, xs). (n, pick (map P idx) xs)) cols)
     = filter (\<lambda>r. P (fst r)) (rows_of idx cols)"
proof (induction idx arbitrary: cols)
  case Nil
  then show ?case by simp
next
  case (Cons d ds)
  have shape: "\<exists>x ys. xs = x # ys \<and> length ys = length ds" if "(n, xs) \<in> set cols" for n xs
  proof -
    from that Cons.prems have "length xs = Suc (length ds)" by (auto simp: list_all_iff)
    then show ?thesis by (cases xs) simp_all
  qed
  let ?tl = "map (\<lambda>(n, xs). (n, tl xs)) cols"
  have tl_ok: "list_all (\<lambda>(n, xs). length xs = length ds) ?tl"
    using shape by (fastforce simp: list_all_iff)
  have tails: "map (\<lambda>(n, xs). (n, pick (map P ds) xs)) ?tl
               = map (\<lambda>(n, xs). (n, pick (map P ds) (tl xs))) cols"
    by (simp add: case_prod_unfold)
  have IH: "rows_of (pick (map P ds) ds) (map (\<lambda>(n, xs). (n, pick (map P ds) (tl xs))) cols)
            = filter (\<lambda>r. P (fst r)) (rows_of ds ?tl)"
    using Cons.IH [OF tl_ok] unfolding tails .
  show ?case
  proof (cases "P d")
    case True
    have step: "map (\<lambda>(n, xs). (n, pick (map P (d # ds)) xs)) cols
                = map (\<lambda>(n, xs). (n, hd xs # pick (map P ds) (tl xs))) cols"
      by (rule map_cong [OF refl]) (use True shape in fastforce)
    show ?thesis
      unfolding step using True IH by (simp add: case_prod_unfold o_def)
  next
    case False
    have step: "map (\<lambda>(n, xs). (n, pick (map P (d # ds)) xs)) cols
                = map (\<lambda>(n, xs). (n, pick (map P ds) (tl xs))) cols"
      by (rule map_cong [OF refl]) (use False shape in fastforce)
    show ?thesis
      unfolding step using False IH by (simp add: case_prod_unfold o_def)
  qed
qed

lemma wf_loc_mask: "wf_frame df \<Longrightarrow> wf_frame (loc_mask m df)"
  by (auto simp: wf_frame_def loc_mask_def list_all_iff intro: length_pick)

subsection \<open>The day-of-year filter\<close>

text \<open>
  C5. For every cleaned table and target date, \<^verbatim>\<open>select_data\<close> returns exactly the rows
  whose month and day are those of the target date, whatever their year, in the order
  of the table and with the columns unchanged. The stage has no error result: it is a
  total function into tables, and the table with no row is one of its values (it is the
  result when the filter keeps no index entry).
\<close>

theorem select_data_rows:
  assumes "wf_frame df"
  shows "rows (select_data dt df)
           = filter (\<lambda>r. month (fst r) = month dt \<and> day (fst r) = day dt) (rows df)
         \<and> index (select_data dt df)
           = filter (\<lambda>d. month d = month dt \<and> day d = day dt) (index df)
         \<and> map fst (columns (select_data dt df)) = map fst (columns df)
         \<and> wf_frame (select_data dt df)"
proof -
  have "rows (select_data dt df)
          = filter (\<lambda>r. month (fst r) = month dt \<and> day (fst r) = day dt) (rows df)"
    using assms
    unfolding rows_def select_data_def loc_mask_def wf_frame_def
    by (simp add: rows_of_pick [where P = "\<lambda>d. month d = month dt \<and> day d = day dt"])
  moreover have "index (select_data dt df)
          = filter (\<lambda>d. month d = month dt \<and> day d = day dt) (index df)"
    by (simp add: select_data_def loc_mask_def pick_map_self)
  moreover have "map fst (columns (select_data dt df)) = map fst (columns df)"
    by (simp add: select_data_def loc_mask_def case_prod_unfold)
  moreover have "wf_frame (select_data dt df)"
    using assms by (simp add: select_data_def wf_loc_mask)
  ultimately show ?thesis by simp
qed

text \<open>
  The filter on a table of three days, two of them a 2 November; and on a 29 February,
  which the table does not have: the result is the table with no row.
\<close>

theorem select_data_rows_witness:
  "wf_frame \<lparr>index = [\<lparr>year = 2021, month = 11, day = 2\<rparr>, \<lparr>year = 2022, month = 11, day = 3\<rparr>,
                      \<lparr>year = 2022, month = 11, day = 2\<rparr>],
            columns = [(''max_temp_f'', [Some (50::rat), None, Some 61])]\<rparr>
   \<and> rows (select_data \<lparr>year = 2023, month = 11, day = 2\<rparr>
        \<lparr>index = [\<lparr>year = 2021, month = 11, day = 2\<rparr>, \<lparr>year = 2022, month = 11, day = 3\<rparr>,
                  \<lparr>year = 2022, month = 11, day = 2\<rparr>],
         columns = [(''max_temp_f'', [Some 50, None, Some 61])]\<rparr>)
     = [(\<lparr>year = 2021, month = 11, day = 2\<rparr>, [(''max_temp_f'', Some 50)]),
        (\<lparr>year = 2022, month = 11, day = 2\<rparr>, [(''max_temp_f'', Some 61)])]
   \<and> rows (select_data \<lparr>year = 2024, month = 2, day = 29\<rparr>
        \<lparr>index = [\<lparr>year = 2021, month = 11, day = 2\<rparr>, \<lparr>year = 2022, month = 11, day = 3\<rparr>,
                  \<lparr>year = 2022, month = 11, day = 2\<rparr>],
         columns = [(''max_temp_f'', [Some 50, None, Some 61])]\<rparr>) = []"
proof -
  let ?df = "\<lparr>index = [\<lparr>year = 2021, month = 11, day = 2\<rparr>, \<lparr>year = 2022, month = 11, day = 3\<rparr>,
                       \<lparr>year = 2022, month = 11, day = 2\<rparr>],
             columns = [(''max_temp_f'', [Some 50, None, Some (61::rat)])]\<rparr>"
  have wf: "wf_frame ?df" by (simp add: wf_frame_def)
  have all_rows: "rows ?df = [(\<lparr>year = 2021, month = 11, day = 2\<rparr>, [(''max_temp_f'', Some 50)]),
                              (\<lparr>year = 2022, month = 11, day = 3\<rparr>, [(''max_temp_f'', None)]),
                              (\<lparr>year = 2022, month = 11, day = 2\<rparr>, [(''max_temp_f'', Some 61)])]"
    by (simp add: rows_def)
  have nov: "rows (select_data \<lparr>year = 2023, month = 11, day = 2\<rparr> ?df)
             = [(\<lparr>year = 2021, month = 11, day = 2\<rparr>, [(''max_temp_f'', Some 50)]),
                (\<lparr>year = 2022, month = 11, day = 2\<rparr>, [(''max_temp_f'', Some 61)])]"
    using select_data_rows [OF wf, of "\<lparr>year = 2023, month = 11, day = 2\<rparr>"]
    by (simp add: all_rows)
  have feb: "rows (select_data \<lparr>year = 2024, month = 2, day = 29\<rparr> ?df) = []"
    using select_data_rows [OF wf, of "\<lparr>year = 2024, month = 2, day = 29\<rparr>"]
    by (simp add: all_rows)
  show ?thesis
    using wf nov feb by (intro conjI)
qed

subsection \<open>The cleaning stage\<close>



lemma drop_columns_station:
  "drop_columns [''station''] df =
     (if ''station'' \<in> set (map fst (columns df))
      then Inr \<lparr>index = index df, columns = filter (\<lambda>(n, xs). n \<noteq> ''station'') (columns df)\<rparr>
      else Inl (KeyError [''station'']))"
  by (simp add: drop_columns_def)

lemma preprocess_data_eq:
  "preprocess_data parse f32 df =
     (if ''station'' \<in> set (map fst (columns df))
      then Inr \<lparr>index = index df,
                columns = map (\<lambda>(n, xs). (n, map (\<lambda>c. map_option f32 (coerce parse c)) xs))
                            (filter (\<lambda>(n, xs). n \<noteq> ''station'') (columns df))\<rparr>
      else Inl (KeyError [''station'']))"
  by (simp add: preprocess_data_def drop_columns_station astype_def apply_columns_def
        to_numeric_def case_prod_unfold o_def)



text \<open>
  C10. A raw table with no column named station makes \<^verbatim>\<open>preprocess_data\<close> raise: the
  result is the KeyError of \<^verbatim>\<open>df.drop(columns=["station"])\<close>, whatever the cells are.
\<close>

theorem preprocess_data_no_station:
  "''station'' \<notin> set (map fst (columns df)) \<Longrightarrow>
   preprocess_data parse f32 df = Inl (KeyError [''station''])"
  by (simp add: preprocess_data_eq)

theorem preprocess_data_no_station_witness:
  "''station'' \<notin> set (map fst (columns
       \<lparr>index = [\<lparr>year = 2023, month = 11, day = 2\<rparr>],
        columns = [(''max_temp_f'', [RStr ''41.0''])]\<rparr>))
   \<and> preprocess_data (\<lambda>s. None) (\<lambda>r. r)
       \<lparr>index = [\<lparr>year = 2023, month = 11, day = 2\<rparr>],
        columns = [(''max_temp_f'', [RStr ''41.0''])]\<rparr> = Inl (KeyError [''station''])"
proof -
  have h: "''station'' \<notin> set (map fst (columns
       \<lparr>index = [\<lparr>year = 2023, month = 11, day = 2\<rparr>],
        columns = [(''max_temp_f'', [RStr ''41.0''])]\<rparr>))"
    by simp
  from preprocess_data_no_station [OF h, of "\<lambda>s. None" "\<lambda>r. r"] h show ?thesis
    by (intro conjI)
qed

subsection \<open>The steps of the statistics stage\<close>

lemma map_of_apply_columns:
  "map_of (columns (apply_columns f df)) k = map_option f (map_of (columns df) k)"
  by (simp add: apply_columns_def map_of_map)

lemma map_of_loc_mask:
  "map_of (columns (loc_mask m df)) k = map_option (pick m) (map_of (columns df) k)"
  by (simp add: loc_mask_def map_of_map)

lemma map_of_replace_same:
  "name \<in> set (map fst cols) \<Longrightarrow>
   map_of (map (\<lambda>(n, xs). if n = name then (n, col) else (n, xs)) cols) name = Some col"
  by (induction cols) auto

lemma map_of_replace_other:
  "k \<noteq> name \<Longrightarrow>
   map_of (map (\<lambda>(n, xs). if n = name then (n, col) else (n, xs)) cols) k = map_of cols k"
  by (induction cols) auto

lemma map_of_assign_same: "map_of (columns (assign name col df)) name = Some col"
  by (auto simp: assign_def map_of_replace_same map_add_def map_of_eq_None_iff [symmetric]
        simp del: map_of_eq_None_iff)

lemma map_of_assign_other:
  "k \<noteq> name \<Longrightarrow> map_of (columns (assign name col df)) k = map_of (columns df) k"
  by (auto simp: assign_def map_of_replace_other map_add_def split: option.splits)

lemma index_assign [simp]: "index (assign name col df) = index df"
  by (simp add: assign_def)

lemma index_apply_columns [simp]: "index (apply_columns f df) = index df"
  by (simp add: apply_columns_def)

lemma index_loc_mask [simp]: "index (loc_mask m df) = pick m (index df)"
  by (simp add: loc_mask_def)

lemma numbers_Flt:
  "numbers (map Flt (filter (\<lambda>c. c \<noteq> None) col)) = Inr (map the (filter (\<lambda>c. c \<noteq> None) col))"
  by (induction col) auto

lemma numbers_Cat: "numbers (map Cat xs) = Inr vs \<Longrightarrow> xs = []"
  by (cases xs) auto

lemma zip_present:
  "length idx = length col \<Longrightarrow>
   zip (pick (map (\<lambda>c. c \<noteq> None) col) idx) (map the (filter (\<lambda>c. c \<noteq> None) col))
     = concat (map (\<lambda>(d, c). case c of None \<Rightarrow> [] | Some v \<Rightarrow> [(d, v)]) (zip idx col))"
  by (induction idx col rule: list_induct2) auto

lemma length_pick_present:
  "length idx = length col \<Longrightarrow>
   length (pick (map (\<lambda>c. c \<noteq> None) col) idx) = length (filter (\<lambda>c. c \<noteq> None) col)"
  by (induction idx col rule: list_induct2) auto


lemma pick_pd_cut:
  "pick m (pd_cut (map year idx) bins) = map (\<lambda>d. cut1 bins (year d)) (pick m idx)"
  unfolding pd_cut_def by (simp only: pick_map map_map o_def)

lemma plot_data_steps:
  assumes "plot_data dt station_df station df var = Inr s"
  obtains sdf label weather_df last_cell vals target lo_idx hi_idx where
    "dropna var (assign ''score'' (map Cat (pd_cut (map year (index df)) bins))
                   (apply_columns (map Flt) df)) = Inr sdf"
    "item (map snd (filter (\<lambda>(stid, name). stid = station) station_df)) = Inr label"
    "getitem sdf var = Inr weather_df"
    "iloc_last sdf var = Inr last_cell"
    "numbers weather_df = Inr vals"
    "number last_cell = Inr target"
    "idxmin (zip (index sdf) vals) = Inr lo_idx"
    "idxmax (zip (index sdf) vals) = Inr hi_idx"
    "s = \<lparr>n_years = length weather_df, station_name = label, weather_date = target,
          date_label = year dt, weather_average = mean vals, min_value = series_min vals,
          min_idx = lo_idx, max_value = series_max vals, max_idx = hi_idx,
          median_value = median vals, percentile = percentileofscore vals target Strict,
          score = (case map_of (columns sdf) ''score'' of None \<Rightarrow> []
                   | Some col \<Rightarrow> map interval col)\<rparr>"
  using assms unfolding plot_data_def by (auto split: sum.splits)

lemma plot_data_not_score:
  assumes "plot_data dt station_df station df var = Inr s"
  shows "var \<noteq> ''score''"
proof
  assume v: "var = ''score''"
  from assms obtain sdf weather_df last_cell vals where
    d: "dropna var (assign ''score'' (map Cat (pd_cut (map year (index df)) bins))
                   (apply_columns (map Flt) df)) = Inr sdf"
    and g: "getitem sdf var = Inr weather_df"
    and i: "iloc_last sdf var = Inr last_cell"
    and n: "numbers weather_df = Inr vals"
    by (rule plot_data_steps)
  let ?ivs = "pd_cut (map year (index df)) bins"
  let ?m = "map notna (map Cat ?ivs)"
  from d v have sdf: "sdf = loc_mask ?m (assign ''score'' (map Cat ?ivs) (apply_columns (map Flt) df))"
    by (simp add: dropna_def map_of_assign_same)
  have col: "map_of (columns sdf) var = Some (map Cat (pick ?m ?ivs))"
    by (simp add: sdf v map_of_loc_mask map_of_assign_same pick_map)
  from g col have "weather_df = map Cat (pick ?m ?ivs)" by (simp add: getitem_def)
  with n have "pick ?m ?ivs = []" by (auto dest: numbers_Cat)
  with i col show False by (simp add: iloc_last_def split: if_splits)
qed


lemma plot_data_series:
  assumes wf: "wf_frame df" and ok: "plot_data dt station_df station df var = Inr s"
  shows "variable_series df var \<noteq> []"
    and "n_years s = length (variable_series df var)"
    and "weather_date s = snd (last (variable_series df var))"
    and "percentile s = percentileofscore (map snd (variable_series df var))
                          (snd (last (variable_series df var))) Strict"
    and "idxmin (variable_series df var) = Inr (min_idx s)"
    and "idxmax (variable_series df var) = Inr (max_idx s)"
    and "min_value s = series_min (map snd (variable_series df var))"
    and "max_value s = series_max (map snd (variable_series df var))"
    and "score s = map (\<lambda>e. cut1 bins (year (fst e))) (variable_series df var)"
proof -
  from ok obtain sdf label weather_df last_cell vals target lo_idx hi_idx where
    d: "dropna var (assign ''score'' (map Cat (pd_cut (map year (index df)) bins))
                   (apply_columns (map Flt) df)) = Inr sdf"
    and g: "getitem sdf var = Inr weather_df"
    and i: "iloc_last sdf var = Inr last_cell"
    and n: "numbers weather_df = Inr vals"
    and t: "number last_cell = Inr target"
    and lo: "idxmin (zip (index sdf) vals) = Inr lo_idx"
    and hi: "idxmax (zip (index sdf) vals) = Inr hi_idx"
    and s: "s = \<lparr>n_years = length weather_df, station_name = label, weather_date = target,
          date_label = year dt, weather_average = mean vals, min_value = series_min vals,
          min_idx = lo_idx, max_value = series_max vals, max_idx = hi_idx,
          median_value = median vals, percentile = percentileofscore vals target Strict,
          score = (case map_of (columns sdf) ''score'' of None \<Rightarrow> []
                   | Some col \<Rightarrow> map interval col)\<rparr>"
    by (rule plot_data_steps)
  note not_None_eq [simp del]
  let ?ivs = "pd_cut (map year (index df)) bins"
  let ?adf = "assign ''score'' (map Cat ?ivs) (apply_columns (map Flt) df)"
  let ?ser = "variable_series df var"
  have ns: "var \<noteq> ''score''" using ok by (rule plot_data_not_score)
  have lookup: "map_of (columns ?adf) var = map_option (map Flt) (map_of (columns df) var)"
    using ns by (simp add: map_of_assign_other map_of_apply_columns)
  from d obtain col where col: "map_of (columns df) var = Some col"
    by (auto simp: dropna_def lookup split: option.splits)
  let ?P = "\<lambda>c::cell. c \<noteq> None"
  let ?m = "map ?P col"
  have mask: "map notna (map Flt col) = ?m" by simp
  from d have "sdf = loc_mask (map notna (map Flt col)) ?adf"
    unfolding dropna_def lookup col by simp
  then have sdf: "sdf = loc_mask ?m ?adf"
    unfolding mask .
  from col have "(var, col) \<in> set (columns df)" by (rule map_of_SomeD)
  with wf have len: "length (index df) = length col"
    by (fastforce simp: wf_frame_def list_all_iff)
  have wcol: "map_of (columns sdf) var = Some (map Flt (filter ?P col))"
    by (simp add: sdf map_of_loc_mask lookup col pick_map pick_map_self)
  from g wcol have wdf: "weather_df = map Flt (filter ?P col)" by (simp add: getitem_def)
  from n have vals: "vals = map the (filter ?P col)" by (simp add: wdf numbers_Flt)
  have idx: "index sdf = pick ?m (index df)" by (simp add: sdf)
  have ser: "zip (index sdf) vals = ?ser"
    by (simp add: idx vals variable_series_def col zip_present [OF len])
  have lens: "length (index sdf) = length vals"
    by (simp add: idx vals length_pick_present [OF len])
  have snds: "map snd ?ser = vals" and fsts: "map fst ?ser = index sdf"
    using lens by (simp_all add: ser [symmetric])
  from i have ne: "filter ?P col \<noteq> []"
    by (auto simp: iloc_last_def wcol split: if_splits)
  then have vne: "vals \<noteq> []" by (simp add: vals)
  then show sne: "?ser \<noteq> []" using snds by auto
  have "length ?ser = length vals"
    using lens by (simp add: ser [symmetric])
  then show "n_years s = length ?ser"
    by (simp add: s wdf vals)
  from i have lc: "last_cell = Flt (last (filter ?P col))"
    using ne by (auto simp: iloc_last_def wcol last_map split: if_splits)
  have "last (filter ?P col) \<in> set (filter ?P col)" using ne by (rule last_in_set)
  then obtain v where v: "last (filter ?P col) = Some v" by auto
  with t lc have tv: "target = v" by simp
  have "last vals = the (last (filter ?P col))" using ne by (simp add: vals last_map)
  with v tv have target: "target = last vals" by simp
  have lastser: "snd (last ?ser) = last vals"
    using sne by (simp add: snds [symmetric] last_map)
  show "weather_date s = snd (last ?ser)" by (simp add: s target lastser)
  show "percentile s = percentileofscore (map snd ?ser) (snd (last ?ser)) Strict"
    by (simp add: s target lastser snds)
  show "idxmin ?ser = Inr (min_idx s)" using lo by (simp add: s ser)
  show "idxmax ?ser = Inr (max_idx s)" using hi by (simp add: s ser)
  show "min_value s = series_min (map snd ?ser)" by (simp add: s snds)
  show "max_value s = series_max (map snd ?ser)" by (simp add: s snds)
  have sc: "map_of (columns sdf) ''score'' = Some (map Cat (pick ?m ?ivs))"
    by (simp add: sdf map_of_loc_mask map_of_assign_same pick_map)
  have "score s = pick ?m ?ivs" by (simp add: s sc o_def)
  also have "\<dots> = map (\<lambda>d. cut1 bins (year d)) (pick ?m (index df))"
    by (rule pick_pd_cut)
  also have "\<dots> = map (\<lambda>e. cut1 bins (year (fst e))) ?ser"
    by (simp add: idx [symmetric] fsts [symmetric] o_def)
  finally show "score s = map (\<lambda>e. cut1 bins (year (fst e))) ?ser" .
qed


lemma argmin_from_split:
  "\<exists>pre post. b # xs = pre @ argmin_from b xs # post
     \<and> (\<forall>e \<in> set pre. snd (argmin_from b xs) < snd e)
     \<and> (\<forall>e \<in> set post. snd (argmin_from b xs) \<le> snd e)"
proof (induction xs arbitrary: b)
  case Nil
  show ?case by (intro exI [of _ "[]"]) simp
next
  case (Cons x xs)
  show ?case
  proof (cases "snd x < snd b")
    case True
    define r where "r = argmin_from x xs"
    from Cons.IH [of x] obtain pre post where
      sp: "x # xs = pre @ r # post"
      and lt: "\<forall>e \<in> set pre. snd r < snd e"
      and le: "\<forall>e \<in> set post. snd r \<le> snd e"
      unfolding r_def by blast
    have res: "argmin_from b (x # xs) = r" using True by (simp add: r_def)
    from sp have "x \<in> set pre \<or> x = r" by (cases pre) auto
    with lt have "snd r \<le> snd x" by auto
    with True have "snd r < snd b" by simp
    with lt have "\<forall>e \<in> set (b # pre). snd r < snd e" by simp
    moreover have "b # x # xs = (b # pre) @ r # post" using sp by simp
    ultimately show ?thesis unfolding res using le by blast
  next
    case False
    define r where "r = argmin_from b xs"
    from Cons.IH [of b] obtain pre post where
      sp: "b # xs = pre @ r # post"
      and lt: "\<forall>e \<in> set pre. snd r < snd e"
      and le: "\<forall>e \<in> set post. snd r \<le> snd e"
      unfolding r_def by blast
    have res: "argmin_from b (x # xs) = r" using False by (simp add: r_def)
    show ?thesis
    proof (cases pre)
      case Nil
      with sp have "b = r" "xs = post" by simp_all
      then have "b # x # xs = [] @ r # (x # post)" by simp
      moreover have "\<forall>e \<in> set (x # post). snd r \<le> snd e"
        using le False \<open>b = r\<close> by auto
      ultimately show ?thesis unfolding res by (metis empty_iff empty_set)
    next
      case (Cons p pre')
      with sp have "p = b" "xs = pre' @ r # post" by simp_all
      then have "b # x # xs = (b # x # pre') @ r # post" by simp
      moreover have "\<forall>e \<in> set (b # x # pre'). snd r < snd e"
        using lt Cons \<open>p = b\<close> False by auto
      ultimately show ?thesis unfolding res using le by blast
    qed
  qed
qed

lemma argmax_from_split:
  "\<exists>pre post. b # xs = pre @ argmax_from b xs # post
     \<and> (\<forall>e \<in> set pre. snd e < snd (argmax_from b xs))
     \<and> (\<forall>e \<in> set post. snd e \<le> snd (argmax_from b xs))"
proof (induction xs arbitrary: b)
  case Nil
  show ?case by (intro exI [of _ "[]"]) simp
next
  case (Cons x xs)
  show ?case
  proof (cases "snd b < snd x")
    case True
    define r where "r = argmax_from x xs"
    from Cons.IH [of x] obtain pre post where
      sp: "x # xs = pre @ r # post"
      and lt: "\<forall>e \<in> set pre. snd e < snd r"
      and le: "\<forall>e \<in> set post. snd e \<le> snd r"
      unfolding r_def by blast
    have res: "argmax_from b (x # xs) = r" using True by (simp add: r_def)
    from sp have "x \<in> set pre \<or> x = r" by (cases pre) auto
    with lt have "snd x \<le> snd r" by auto
    with True have "snd b < snd r" by simp
    with lt have "\<forall>e \<in> set (b # pre). snd e < snd r" by simp
    moreover have "b # x # xs = (b # pre) @ r # post" using sp by simp
    ultimately show ?thesis unfolding res using le by blast
  next
    case False
    define r where "r = argmax_from b xs"
    from Cons.IH [of b] obtain pre post where
      sp: "b # xs = pre @ r # post"
      and lt: "\<forall>e \<in> set pre. snd e < snd r"
      and le: "\<forall>e \<in> set post. snd e \<le> snd r"
      unfolding r_def by blast
    have res: "argmax_from b (x # xs) = r" using False by (simp add: r_def)
    show ?thesis
    proof (cases pre)
      case Nil
      with sp have "b = r" "xs = post" by simp_all
      then have "b # x # xs = [] @ r # (x # post)" by simp
      moreover have "\<forall>e \<in> set (x # post). snd e \<le> snd r"
        using le False \<open>b = r\<close> by auto
      ultimately show ?thesis unfolding res by (metis empty_iff empty_set)
    next
      case (Cons p pre')
      with sp have "p = b" "xs = pre' @ r # post" by simp_all
      then have "b # x # xs = (b # x # pre') @ r # post" by simp
      moreover have "\<forall>e \<in> set (b # x # pre'). snd e < snd r"
        using lt Cons \<open>p = b\<close> False by auto
      ultimately show ?thesis unfolding res using le by blast
    qed
  qed
qed

subsection \<open>The highlighted value\<close>

text \<open>
  C1. The claim is that the target value is the value of the row whose year is the
  year of the target date. \<^verbatim>\<open>plot_data\<close> takes \<^verbatim>\<open>select_df.iloc[-1]\<close> after
  \<^verbatim>\<open>dropna\<close>: the last row that has a value. On the slice of 2 November with 50 in
  2022 and a missing value in 2023, and the target date 2 November 2023, the row of
  2023 holds the missing marker, while the highlighted value is 50, the value of
  2022, under the label 2023.
\<close>

theorem highlight_is_last_row:
  "map_sum id (\<lambda>s. (weather_date s, date_label s))
     (plot_data \<lparr>year = 2023, month = 11, day = 2\<rparr> [(''DEN'', ''DENVER'')] ''DEN''
        \<lparr>index = [\<lparr>year = 2022, month = 11, day = 2\<rparr>, \<lparr>year = 2023, month = 11, day = 2\<rparr>],
         columns = [(''max_temp_f'', [Some 50, None])]\<rparr> ''max_temp_f'') = Inr (50, 2023)
   \<and> rows \<lparr>index = [\<lparr>year = 2022, month = 11, day = 2\<rparr>, \<lparr>year = 2023, month = 11, day = 2\<rparr>],
            columns = [(''max_temp_f'', [Some (50::rat), None])]\<rparr>
     = [(\<lparr>year = 2022, month = 11, day = 2\<rparr>, [(''max_temp_f'', Some 50)]),
        (\<lparr>year = 2023, month = 11, day = 2\<rparr>, [(''max_temp_f'', None)])]"
  by code_simp

subsection \<open>The empty slice\<close>

text \<open>
  C2, as claimed: an empty slice makes the statistics stage fail with an error of its
  own kind and not with an out-of-bounds access. On the empty slice of a 29 February
  the stage raises the IndexError of \<^verbatim>\<open>select_df.iloc[-1]\<close>, which is the
  out-of-bounds access.
\<close>

theorem empty_slice_counterexample:
  "plot_data \<lparr>year = 2024, month = 2, day = 29\<rparr> [(''DEN'', ''DENVER'')] ''DEN''
     \<lparr>index = [], columns = [(''max_temp_f'', [])]\<rparr> ''max_temp_f'' = Inl IndexError"
  by code_simp

text \<open>
  C2, amended. On every slice with no row the statistics stage fails and returns no
  statistics: with the KeyError of \<^verbatim>\<open>dropna\<close> when the variable is not a column, else
  with the ValueError of \<^verbatim>\<open>item()\<close> when the station does not name exactly one row of
  the catalogue, else with the IndexError of the positional access to the last row.
\<close>

theorem empty_slice_fails:
  assumes "index df = []"
  shows "plot_data dt station_df station df var =
           (if var \<noteq> ''score'' \<and> map_of (columns df) var = None then Inl (KeyError [var])
            else if length (filter (\<lambda>(stid, name). stid = station) station_df) \<noteq> 1
                 then Inl ValueError
            else Inl IndexError)"
proof -
  let ?adf = "assign ''score'' (map Cat (pd_cut (map year (index df)) bins))
                (apply_columns (map Flt) df)"
  have station: "item (map snd (filter (\<lambda>(stid, name). stid = station) station_df)) = Inl ValueError"
    if "length (filter (\<lambda>(stid, name). stid = station) station_df) \<noteq> 1"
    using that by (cases "filter (\<lambda>(stid, name). stid = station) station_df" rule: list.exhaust)
      (auto simp: item_def split: list.splits)
  have station': "\<exists>label. item (map snd (filter (\<lambda>(stid, name). stid = station) station_df)) = Inr label"
    if "length (filter (\<lambda>(stid, name). stid = station) station_df) = 1"
    using that by (auto simp: item_def length_Suc_conv split: list.splits)
  have empty: "iloc_last sdf var = Inl IndexError" if "dropna var ?adf = Inr sdf" for sdf
    using that assms by (auto simp: dropna_def iloc_last_def split: option.splits)
  have present: "\<exists>sdf. dropna var ?adf = Inr sdf \<and> (\<exists>w. getitem sdf var = Inr w)"
    if "\<not> (var \<noteq> ''score'' \<and> map_of (columns df) var = None)"
  proof (cases "var = ''score''")
    case True
    then show ?thesis
      by (simp add: dropna_def getitem_def map_of_assign_same map_of_loc_mask)
  next
    case False
    with that obtain col where "map_of (columns df) var = Some col" by auto
    with False show ?thesis
      by (simp add: dropna_def getitem_def map_of_assign_other map_of_apply_columns map_of_loc_mask)
  qed
  have missing: "dropna var ?adf = Inl (KeyError [var])"
    if "var \<noteq> ''score''" "map_of (columns df) var = None"
    using that by (simp add: dropna_def map_of_assign_other map_of_apply_columns)
  show ?thesis
  proof (cases "var \<noteq> ''score'' \<and> map_of (columns df) var = None")
    case True
    then show ?thesis using missing by (simp add: plot_data_def)
  next
    case absent: False
    from present [OF absent] obtain sdf w where
      d: "dropna var ?adf = Inr sdf" and g: "getitem sdf var = Inr w" by blast
    show ?thesis
    proof (cases "length (filter (\<lambda>(stid, name). stid = station) station_df) = 1")
      case True
      from station' [OF True] obtain label where
        "item (map snd (filter (\<lambda>(stid, name). stid = station) station_df)) = Inr label" ..
      then show ?thesis
        using absent True d g empty [OF d] by (simp add: plot_data_def)
    next
      case False
      then show ?thesis
        using absent d station [OF False] by (simp add: plot_data_def)
    qed
  qed
qed

text \<open>
  The day-of-year filter for 29 February on a table without that day gives a slice
  with no row, and the statistics stage raises IndexError on it.
\<close>

theorem empty_slice_fails_witness:
  "index (select_data \<lparr>year = 2024, month = 2, day = 29\<rparr>
       \<lparr>index = [\<lparr>year = 2022, month = 2, day = 28\<rparr>, \<lparr>year = 2022, month = 3, day = 1\<rparr>],
        columns = [(''max_temp_f'', [Some 40, Some 45])]\<rparr>) = []
   \<and> plot_data \<lparr>year = 2024, month = 2, day = 29\<rparr> [(''DEN'', ''DENVER'')] ''DEN''
       (select_data \<lparr>year = 2024, month = 2, day = 29\<rparr>
          \<lparr>index = [\<lparr>year = 2022, month = 2, day = 28\<rparr>, \<lparr>year = 2022, month = 3, day = 1\<rparr>],
           columns = [(''max_temp_f'', [Some 40, Some 45])]\<rparr>) ''max_temp_f'' = Inl IndexError"
proof -
  let ?df = "select_data \<lparr>year = 2024, month = 2, day = 29\<rparr>
       \<lparr>index = [\<lparr>year = 2022, month = 2, day = 28\<rparr>, \<lparr>year = 2022, month = 3, day = 1\<rparr>],
        columns = [(''max_temp_f'', [Some (40::rat), Some 45])]\<rparr>"
  have h: "index ?df = []" by (simp add: select_data_def loc_mask_def pick_def)
  have c: "map_of (columns ?df) ''max_temp_f'' \<noteq> None"
    by (simp add: select_data_def loc_mask_def)
  from empty_slice_fails [OF h, of "\<lparr>year = 2024, month = 2, day = 29\<rparr>"
      "[(''DEN'', ''DENVER'')]" "''DEN''" "''max_temp_f''"] c
  have "plot_data \<lparr>year = 2024, month = 2, day = 29\<rparr> [(''DEN'', ''DENVER'')] ''DEN'' ?df
          ''max_temp_f'' = Inl IndexError"
    by simp
  with h show ?thesis by (intro conjI)
qed

subsection \<open>The percentile\<close>

text \<open>
  C3. For every non-empty series and every target value, the strict percentile is 100
  times the number of values strictly below the target, divided by the number of
  values. The percentile that \<^verbatim>\<open>plot_data\<close> reports is this number for the series of
  the variable (the rows with a value) and the highlighted value. For the series
  50, 60, 70, 80, 90 and the target 70 it is 40.
\<close>

theorem percentile_strict_rule:
  "(xs \<noteq> [] \<longrightarrow>
      percentileofscore xs t Strict
        = 100 * of_nat (length (filter (\<lambda>v. v < t) xs)) / of_nat (length xs))
   \<and> (wf_frame df \<and> plot_data dt station_df station df var = Inr s \<longrightarrow>
        variable_series df var \<noteq> []
        \<and> percentile s
          = 100 * of_nat (length (filter (\<lambda>e. snd e < weather_date s) (variable_series df var)))
              / of_nat (length (variable_series df var)))
   \<and> percentileofscore [50, 60, 70, 80, 90] 70 Strict = 40"
proof -
  have rule: "percentileofscore ys u Strict
                = 100 * of_nat (length (filter (\<lambda>v. v < u) ys)) / of_nat (length ys)"
    if "ys \<noteq> []" for ys u
    using that by (simp add: percentileofscore_def count_lt_def Let_def)
  have stage: "variable_series df var \<noteq> []
        \<and> percentile s
          = 100 * of_nat (length (filter (\<lambda>e. snd e < weather_date s) (variable_series df var)))
              / of_nat (length (variable_series df var))"
    if wf: "wf_frame df" and ok: "plot_data dt station_df station df var = Inr s"
  proof -
    let ?ser = "variable_series df var"
    have ne: "?ser \<noteq> []" by (rule plot_data_series(1) [OF wf ok])
    have target: "weather_date s = snd (last ?ser)" by (rule plot_data_series(3) [OF wf ok])
    have "percentile s = percentileofscore (map snd ?ser) (weather_date s) Strict"
      unfolding target by (rule plot_data_series(4) [OF wf ok])
    also have "\<dots> = 100 * of_nat (length (filter (\<lambda>v. v < weather_date s) (map snd ?ser)))
                      / of_nat (length (map snd ?ser))"
      using ne by (intro rule) simp
    also have "\<dots> = 100 * of_nat (length (filter (\<lambda>e. snd e < weather_date s) ?ser))
                      / of_nat (length ?ser)"
      by (simp add: filter_map o_def)
    finally show ?thesis using ne by simp
  qed
  have example: "percentileofscore [50, 60, 70, 80, 90] 70 Strict = 40"
    by (simp add: percentileofscore_def count_lt_def Let_def)
  from rule stage example show ?thesis by blast
qed

text \<open>
  The series of the example, and a slice of five years whose last row holds 70: the
  reported percentile is 40.
\<close>

theorem percentile_strict_rule_witness:
  "[50, 60, 70, 80, 90 :: rat] \<noteq> []
   \<and> percentileofscore [50, 60, 70, 80, 90] 70 Strict = 100 * 2 / 5
   \<and> wf_frame \<lparr>index = [\<lparr>year = 2019, month = 11, day = 2\<rparr>, \<lparr>year = 2020, month = 11, day = 2\<rparr>,
                       \<lparr>year = 2021, month = 11, day = 2\<rparr>, \<lparr>year = 2022, month = 11, day = 2\<rparr>,
                       \<lparr>year = 2023, month = 11, day = 2\<rparr>],
              columns = [(''max_temp_f'', [Some (50::rat), Some 90, Some 60, Some 80, Some 70])]\<rparr>
   \<and> map_sum id percentile
       (plot_data \<lparr>year = 2023, month = 11, day = 2\<rparr> [(''DEN'', ''DENVER'')] ''DEN''
          \<lparr>index = [\<lparr>year = 2019, month = 11, day = 2\<rparr>, \<lparr>year = 2020, month = 11, day = 2\<rparr>,
                    \<lparr>year = 2021, month = 11, day = 2\<rparr>, \<lparr>year = 2022, month = 11, day = 2\<rparr>,
                    \<lparr>year = 2023, month = 11, day = 2\<rparr>],
           columns = [(''max_temp_f'', [Some 50, Some 90, Some 60, Some 80, Some 70])]\<rparr>
          ''max_temp_f'') = Inr 40"
proof -
  let ?df = "\<lparr>index = [\<lparr>year = 2019, month = 11, day = 2\<rparr>, \<lparr>year = 2020, month = 11, day = 2\<rparr>,
                       \<lparr>year = 2021, month = 11, day = 2\<rparr>, \<lparr>year = 2022, month = 11, day = 2\<rparr>,
                       \<lparr>year = 2023, month = 11, day = 2\<rparr>],
              columns = [(''max_temp_f'', [Some (50::rat), Some 90, Some 60, Some 80, Some 70])]\<rparr>"
  have wf: "wf_frame ?df" by (simp add: wf_frame_def)
  have ser: "variable_series ?df ''max_temp_f''
       = [(\<lparr>year = 2019, month = 11, day = 2\<rparr>, 50), (\<lparr>year = 2020, month = 11, day = 2\<rparr>, 90),
          (\<lparr>year = 2021, month = 11, day = 2\<rparr>, 60), (\<lparr>year = 2022, month = 11, day = 2\<rparr>, 80),
          (\<lparr>year = 2023, month = 11, day = 2\<rparr>, 70)]"
    by (simp add: variable_series_def)
  have "map_sum id weather_date
          (plot_data \<lparr>year = 2023, month = 11, day = 2\<rparr> [(''DEN'', ''DENVER'')] ''DEN'' ?df
             ''max_temp_f'') = Inr 70"
    by code_simp
  then have "\<exists>s. plot_data \<lparr>year = 2023, month = 11, day = 2\<rparr> [(''DEN'', ''DENVER'')] ''DEN''
                    ?df ''max_temp_f'' = Inr s \<and> weather_date s = 70"
    by (cases "plot_data \<lparr>year = 2023, month = 11, day = 2\<rparr> [(''DEN'', ''DENVER'')] ''DEN''
                 ?df ''max_temp_f''") simp_all
  then obtain s where
    ok: "plot_data \<lparr>year = 2023, month = 11, day = 2\<rparr> [(''DEN'', ''DENVER'')] ''DEN'' ?df
           ''max_temp_f'' = Inr s"
    and target: "weather_date s = 70"
    by blast
  have ne: "[50, 60, 70, 80, 90 :: rat] \<noteq> []" by simp
  note inst = percentile_strict_rule [of "[50, 60, 70, 80, 90]" 70 ?df
      "\<lparr>year = 2023, month = 11, day = 2\<rparr>" "[(''DEN'', ''DENVER'')]" "''DEN''" "''max_temp_f''" s]
  from inst ne have a: "percentileofscore [50, 60, 70, 80, 90] 70 Strict = 100 * 2 / 5"
    by simp
  from inst wf ok have "percentile s
      = 100 * of_nat (length (filter (\<lambda>e. snd e < weather_date s) (variable_series ?df ''max_temp_f'')))
          / of_nat (length (variable_series ?df ''max_temp_f''))"
    by blast
  then have b: "percentile s = 40" unfolding ser target by simp
  show ?thesis using ne a wf b by (simp add: ok)
qed

lemma count_lt_mono: "t1 \<le> t2 \<Longrightarrow> count_lt xs t1 \<le> count_lt xs t2"
  unfolding count_lt_def by (induction xs) auto

text \<open>
  C9. With the series fixed, a larger target value never has a smaller strict
  percentile.
\<close>

theorem percentile_monotone:
  "t1 \<le> t2 \<Longrightarrow> percentileofscore xs t1 Strict \<le> percentileofscore xs t2 Strict"
  by (auto simp: percentileofscore_def Let_def divide_right_mono dest: count_lt_mono [of t1 t2 xs])

theorem percentile_monotone_witness:
  "(60::rat) \<le> 75 \<and> percentileofscore [50, 60, 70, 80, 90] 60 Strict = 20
   \<and> percentileofscore [50, 60, 70, 80, 90] 75 Strict = 60
   \<and> percentileofscore [50, 60, 70, 80, 90] 60 Strict \<le> percentileofscore [50, 60, 70, 80, 90] 75 Strict"
proof -
  have h: "(60::rat) \<le> 75" by simp
  have a: "percentileofscore [50, 60, 70, 80, 90] 60 Strict = 20"
    and b: "percentileofscore [50, 60, 70, 80, 90] 75 Strict = 60"
    by (simp_all add: percentileofscore_def count_lt_def Let_def)
  from percentile_monotone [OF h, of "[50, 60, 70, 80, 90]"] h a b show ?thesis
    by (intro conjI)
qed

subsection \<open>Minimum and maximum with their years\<close>

lemma argmin_from_fold: "snd (argmin_from b xs) = fold min (map snd xs) (snd b)"
  by (induction xs arbitrary: b) (auto simp: min_def)

lemma argmax_from_fold: "snd (argmax_from b xs) = fold max (map snd xs) (snd b)"
  by (induction xs arbitrary: b) (auto simp: max_def)

lemma series_sorted:
  "sorted (map year idx) \<Longrightarrow>
   sorted (map (\<lambda>e. year (fst e))
     (concat (map (\<lambda>(d, c). case c of None \<Rightarrow> [] | Some v \<Rightarrow> [(d, v)]) (zip idx col))))"
proof (induction idx arbitrary: col)
  case Nil
  show ?case by simp
next
  case (Cons d ds)
  show ?case
  proof (cases col)
    case Nil
    then show ?thesis by simp
  next
    case (Cons c cs)
    from Cons.prems have tl: "sorted (map year ds)" and hd: "\<forall>d' \<in> set ds. year d \<le> year d'"
      by simp_all
    have rest: "sorted (map (\<lambda>e. year (fst e))
       (concat (map (\<lambda>(d, c). case c of None \<Rightarrow> [] | Some v \<Rightarrow> [(d, v)]) (zip ds cs))))"
      using tl by (rule Cons.IH)
    show ?thesis
    proof (cases c)
      case None
      with rest Cons show ?thesis by simp
    next
      case (Some v)
      with rest Cons hd show ?thesis
        by (auto dest: set_zip_leftD)
    qed
  qed
qed

lemma variable_series_sorted:
  "sorted (map year (index df)) \<Longrightarrow> sorted (map (\<lambda>e. year (fst e)) (variable_series df var))"
  by (simp add: variable_series_def series_sorted split: option.splits)

text \<open>
  C7, as claimed: for every non-empty series the year reported with the minimum is the
  earliest year among the rows that share it. On a slice whose rows are not in
  chronological order, 1995: 32, 1990: 32, 2000: 50, the minimum 32 is reported with
  1995, the row that comes first in the table, and not with 1990.
\<close>

theorem min_max_years_counterexample:
  "map_sum id (\<lambda>s. (min_value s, year (min_idx s)))
     (plot_data \<lparr>year = 2023, month = 11, day = 2\<rparr> [(''DEN'', ''DENVER'')] ''DEN''
        \<lparr>index = [\<lparr>year = 1995, month = 11, day = 2\<rparr>, \<lparr>year = 1990, month = 11, day = 2\<rparr>,
                  \<lparr>year = 2000, month = 11, day = 2\<rparr>],
         columns = [(''max_temp_f'', [Some 32, Some 32, Some 50])]\<rparr> ''max_temp_f'')
   = Inr (Some 32, 1995)"
  by code_simp

text \<open>
  C7, amended. When \<^verbatim>\<open>plot_data\<close> returns, the reported minimum and maximum are
  values of the series, each paired with the index label of the first row, in the
  order of the table, that holds it: every row before it has a strictly larger
  (for the maximum: strictly smaller) value, and no row after it a smaller (larger)
  one. When the slice is in ascending order of years, this row has the earliest year
  among the rows that share the extreme value.
\<close>

theorem min_max_years:
  assumes wf: "wf_frame df"
    and ok: "plot_data dt station_df station df var = Inr s"
  shows "\<exists>lo hi pre post pre' post'.
           min_value s = Some lo \<and> max_value s = Some hi
           \<and> variable_series df var = pre @ (min_idx s, lo) # post
           \<and> (\<forall>e \<in> set pre. lo < snd e) \<and> (\<forall>e \<in> set post. lo \<le> snd e)
           \<and> variable_series df var = pre' @ (max_idx s, hi) # post'
           \<and> (\<forall>e \<in> set pre'. snd e < hi) \<and> (\<forall>e \<in> set post'. snd e \<le> hi)
           \<and> (sorted (map year (index df)) \<longrightarrow>
                (\<forall>e \<in> set (variable_series df var).
                   (snd e = lo \<longrightarrow> year (min_idx s) \<le> year (fst e))
                   \<and> (snd e = hi \<longrightarrow> year (max_idx s) \<le> year (fst e))))"
proof -
  let ?ser = "variable_series df var"
  from plot_data_series(1) [OF wf ok] obtain x xs where ser: "?ser = x # xs"
    by (cases ?ser) auto
  define lo where "lo = argmin_from x xs"
  define hi where "hi = argmax_from x xs"
  have lo_idx: "min_idx s = fst lo"
    using plot_data_series(5) [OF wf ok] by (simp add: ser idxmin_def lo_def)
  have hi_idx: "max_idx s = fst hi"
    using plot_data_series(6) [OF wf ok] by (simp add: ser idxmax_def hi_def)
  have lo_val: "min_value s = Some (snd lo)"
    using plot_data_series(7) [OF wf ok] by (simp add: ser series_min_def lo_def argmin_from_fold)
  have hi_val: "max_value s = Some (snd hi)"
    using plot_data_series(8) [OF wf ok] by (simp add: ser series_max_def hi_def argmax_from_fold)
  from argmin_from_split [of x xs] obtain pre post where
    sp: "x # xs = pre @ lo # post"
    and lt: "\<forall>e \<in> set pre. snd lo < snd e"
    and le: "\<forall>e \<in> set post. snd lo \<le> snd e"
    unfolding lo_def by blast
  from argmax_from_split [of x xs] obtain pre' post' where
    sp': "x # xs = pre' @ hi # post'"
    and lt': "\<forall>e \<in> set pre'. snd e < snd hi"
    and le': "\<forall>e \<in> set post'. snd e \<le> snd hi"
    unfolding hi_def by blast
  have lo_split: "?ser = pre @ (min_idx s, snd lo) # post"
    unfolding ser sp lo_idx by simp
  have hi_split: "?ser = pre' @ (max_idx s, snd hi) # post'"
    unfolding ser sp' hi_idx by simp
  have ties: "(snd e = snd lo \<longrightarrow> year (min_idx s) \<le> year (fst e))
              \<and> (snd e = snd hi \<longrightarrow> year (max_idx s) \<le> year (fst e))"
    if chrono: "sorted (map year (index df))" and e: "e \<in> set ?ser" for e
  proof -
    have years: "sorted (map (\<lambda>e. year (fst e)) (x # xs))"
      using variable_series_sorted [OF chrono, of var] by (simp add: ser)
    have lo_after: "\<forall>e \<in> set post. year (fst lo) \<le> year (fst e)"
      using years unfolding sp by (simp add: sorted_append)
    have hi_after: "\<forall>e \<in> set post'. year (fst hi) \<le> year (fst e)"
      using years unfolding sp' by (simp add: sorted_append)
    from e have "e \<in> set pre \<or> e = lo \<or> e \<in> set post" unfolding ser sp by auto
    then have a: "snd e = snd lo \<longrightarrow> year (fst lo) \<le> year (fst e)"
      using lt lo_after by (elim disjE) auto
    from e have "e \<in> set pre' \<or> e = hi \<or> e \<in> set post'" unfolding ser sp' by auto
    then have b: "snd e = snd hi \<longrightarrow> year (fst hi) \<le> year (fst e)"
      using lt' hi_after by (elim disjE) auto
    from a b show ?thesis by (simp add: lo_idx hi_idx)
  qed
  show ?thesis
    using lo_val hi_val lo_split hi_split lt le lt' le' ties by blast
qed

text \<open>
  The series 1990: 32, 1995: 32, 2000: 50, in ascending order of years, has the
  minimum 32 in 1990 and the maximum 50 in 2000.
\<close>

theorem min_max_years_witness:
  "wf_frame \<lparr>index = [\<lparr>year = 1990, month = 11, day = 2\<rparr>, \<lparr>year = 1995, month = 11, day = 2\<rparr>,
                     \<lparr>year = 2000, month = 11, day = 2\<rparr>],
            columns = [(''max_temp_f'', [Some (32::rat), Some 32, Some 50])]\<rparr>
   \<and> sorted (map year [\<lparr>year = 1990, month = 11, day = 2\<rparr>, \<lparr>year = 1995, month = 11, day = 2\<rparr>,
                        \<lparr>year = 2000, month = 11, day = 2\<rparr>])
   \<and> map_sum id (\<lambda>s. (min_value s, year (min_idx s), max_value s, year (max_idx s)))
       (plot_data \<lparr>year = 2023, month = 11, day = 2\<rparr> [(''DEN'', ''DENVER'')] ''DEN''
          \<lparr>index = [\<lparr>year = 1990, month = 11, day = 2\<rparr>, \<lparr>year = 1995, month = 11, day = 2\<rparr>,
                    \<lparr>year = 2000, month = 11, day = 2\<rparr>],
           columns = [(''max_temp_f'', [Some 32, Some 32, Some 50])]\<rparr> ''max_temp_f'')
     = Inr (Some 32, 1990, Some 50, 2000)"
proof -
  let ?df = "\<lparr>index = [\<lparr>year = 1990, month = 11, day = 2\<rparr>, \<lparr>year = 1995, month = 11, day = 2\<rparr>,
                     \<lparr>year = 2000, month = 11, day = 2\<rparr>],
            columns = [(''max_temp_f'', [Some (32::rat), Some 32, Some 50])]\<rparr>"
  let ?call = "plot_data \<lparr>year = 2023, month = 11, day = 2\<rparr> [(''DEN'', ''DENVER'')] ''DEN'' ?df
                 ''max_temp_f''"
  let ?d90 = "\<lparr>year = 1990, month = 11, day = 2\<rparr>"
  let ?d95 = "\<lparr>year = 1995, month = 11, day = 2\<rparr>"
  let ?d00 = "\<lparr>year = 2000, month = 11, day = 2\<rparr>"
  have wf: "wf_frame ?df" by (simp add: wf_frame_def)
  have chrono: "sorted (map year (index ?df))" by simp
  have ser: "variable_series ?df ''max_temp_f'' = [(?d90, 32), (?d95, 32), (?d00, 50)]"
    by (simp add: variable_series_def)
  have "map_sum id n_years ?call = Inr 3" by code_simp
  then obtain s where ok: "?call = Inr s" by (cases ?call) simp_all
  from min_max_years [OF wf ok] chrono obtain lo hi pre post where
    lo: "min_value s = Some lo" and hi: "max_value s = Some hi"
    and sp: "variable_series ?df ''max_temp_f'' = pre @ (min_idx s, lo) # post"
    and lt: "\<forall>e \<in> set pre. lo < snd e" and le: "\<forall>e \<in> set post. lo \<le> snd e"
    and ties: "\<forall>e \<in> set (variable_series ?df ''max_temp_f'').
                 (snd e = lo \<longrightarrow> year (min_idx s) \<le> year (fst e))
                 \<and> (snd e = hi \<longrightarrow> year (max_idx s) \<le> year (fst e))"
    by blast
  have ev: "map_sum id (\<lambda>s. (min_value s, year (min_idx s), max_value s, year (max_idx s))) ?call
              = Inr (Some 32, 1990, Some 50, 2000)"
    by code_simp
  with wf chrono lo hi ties show ?thesis by simp
qed

subsection \<open>The year bins\<close>

lemma bins_list: "bins = [1930, 1950, 1970, 1990, 2010, 2030, 2050]"
  by code_simp

lemma cut1_bins_cases:
  "cut1 bins y =
     (if y \<le> 1930 then None
      else if y \<le> 1950 then Some (1930, 1950)
      else if y \<le> 1970 then Some (1950, 1970)
      else if y \<le> 1990 then Some (1970, 1990)
      else if y \<le> 2010 then Some (1990, 2010)
      else if y \<le> 2030 then Some (2010, 2030)
      else if y \<le> 2050 then Some (2030, 2050)
      else None)"
  unfolding bins_list by simp

lemma cut1_bins_None: "cut1 bins y = None \<longleftrightarrow> y \<le> 1930 \<or> 2050 < y"
  unfolding cut1_bins_cases by simp

lemma cut1_bins_Some:
  "cut1 bins y = Some (lo, hi) \<longleftrightarrow>
     lo \<in> {1930, 1950, 1970, 1990, 2010, 2030} \<and> hi = lo + 20 \<and> lo < y \<and> y \<le> hi"
proof
  assume "cut1 bins y = Some (lo, hi)"
  then show "lo \<in> {1930, 1950, 1970, 1990, 2010, 2030} \<and> hi = lo + 20 \<and> lo < y \<and> y \<le> hi"
    unfolding cut1_bins_cases by (simp split: if_splits)
next
  assume r: "lo \<in> {1930, 1950, 1970, 1990, 2010, 2030} \<and> hi = lo + 20 \<and> lo < y \<and> y \<le> hi"
  then have "lo = 1930 \<or> lo = 1950 \<or> lo = 1970 \<or> lo = 1990 \<or> lo = 2010 \<or> lo = 2030"
    by simp
  then show "cut1 bins y = Some (lo, hi)"
    using r unfolding cut1_bins_cases by (elim disjE) simp_all
qed

text \<open>
  C8, as claimed: every row of the slice falls into one of the 20-year bins. The row
  of 1930 gets no bin: the intervals are open on the left, and the first one starts
  at 1930.
\<close>

theorem year_bins_counterexample:
  "map_sum id score
     (plot_data \<lparr>year = 2023, month = 11, day = 2\<rparr> [(''DEN'', ''DENVER'')] ''DEN''
        \<lparr>index = [\<lparr>year = 1930, month = 11, day = 2\<rparr>, \<lparr>year = 1931, month = 11, day = 2\<rparr>],
         columns = [(''max_temp_f'', [Some 50, Some 51])]\<rparr> ''max_temp_f'')
   = Inr [None, Some (1930, 1950)]"
  by code_simp

text \<open>
  C8, amended. The bin edges are the constant table 1930, 1950, ..., 2050, whatever
  the data; a year \<open>y\<close> gets the interval \<open>(lo, lo + 20]\<close> of that table that holds it,
  and it gets none exactly when \<open>y \<le> 1930\<close> or \<open>y > 2050\<close>; the \<^verbatim>\<open>score\<close> column of
  \<^verbatim>\<open>plot_data\<close> holds this bin, or the missing marker, for every row of the series.
\<close>

theorem year_bins:
  "bins = [1930, 1950, 1970, 1990, 2010, 2030, 2050]
   \<and> (cut1 bins y = None \<longleftrightarrow> y \<le> 1930 \<or> 2050 < y)
   \<and> (cut1 bins y = Some (lo, hi) \<longleftrightarrow>
        lo \<in> {1930, 1950, 1970, 1990, 2010, 2030} \<and> hi = lo + 20 \<and> lo < y \<and> y \<le> hi)
   \<and> (wf_frame df \<and> plot_data dt station_df station df var = Inr s \<longrightarrow>
        score s = map (\<lambda>e. cut1 bins (year (fst e))) (variable_series df var))"
  using bins_list cut1_bins_None [of y] cut1_bins_Some [of y lo hi]
    plot_data_series(9) [of df dt station_df station var s]
  by blast

theorem year_bins_witness:
  "wf_frame \<lparr>index = [\<lparr>year = 1930, month = 11, day = 2\<rparr>, \<lparr>year = 1950, month = 11, day = 2\<rparr>,
                     \<lparr>year = 1951, month = 11, day = 2\<rparr>, \<lparr>year = 2023, month = 11, day = 2\<rparr>],
            columns = [(''max_temp_f'', [Some (50::rat), Some 51, None, Some 52])]\<rparr>
   \<and> map_sum id score
       (plot_data \<lparr>year = 2023, month = 11, day = 2\<rparr> [(''DEN'', ''DENVER'')] ''DEN''
          \<lparr>index = [\<lparr>year = 1930, month = 11, day = 2\<rparr>, \<lparr>year = 1950, month = 11, day = 2\<rparr>,
                    \<lparr>year = 1951, month = 11, day = 2\<rparr>, \<lparr>year = 2023, month = 11, day = 2\<rparr>],
           columns = [(''max_temp_f'', [Some 50, Some 51, None, Some 52])]\<rparr> ''max_temp_f'')
     = Inr [None, Some (1930, 1950), Some (2010, 2030)]
   \<and> cut1 bins 1950 = Some (1930, 1950) \<and> cut1 bins 2051 = None"
proof -
  let ?df = "\<lparr>index = [\<lparr>year = 1930, month = 11, day = 2\<rparr>, \<lparr>year = 1950, month = 11, day = 2\<rparr>,
                     \<lparr>year = 1951, month = 11, day = 2\<rparr>, \<lparr>year = 2023, month = 11, day = 2\<rparr>],
            columns = [(''max_temp_f'', [Some (50::rat), Some 51, None, Some 52])]\<rparr>"
  let ?call = "plot_data \<lparr>year = 2023, month = 11, day = 2\<rparr> [(''DEN'', ''DENVER'')] ''DEN'' ?df
                 ''max_temp_f''"
  have wf: "wf_frame ?df" by (simp add: wf_frame_def)
  have "map_sum id n_years ?call = Inr 3" by code_simp
  then obtain s where ok: "?call = Inr s" by (cases ?call) simp_all
  have ser: "variable_series ?df ''max_temp_f''
       = [(\<lparr>year = 1930, month = 11, day = 2\<rparr>, 50), (\<lparr>year = 1950, month = 11, day = 2\<rparr>, 51),
          (\<lparr>year = 2023, month = 11, day = 2\<rparr>, 52)]"
    by (simp add: variable_series_def)
  have a: "cut1 bins 1930 = None"
    using year_bins [of 1930] by simp
  have b: "cut1 bins 1950 = Some (1930, 1950)"
    using year_bins [of 1950 1930 1950] by simp
  have c: "cut1 bins 2023 = Some (2010, 2030)"
    using year_bins [of 2023 2010 2030] by simp
  have d: "cut1 bins 2051 = None"
    using year_bins [of 2051] by simp
  from year_bins [of _ _ _ ?df "\<lparr>year = 2023, month = 11, day = 2\<rparr>" "[(''DEN'', ''DENVER'')]"
      "''DEN''" "''max_temp_f''" s] wf ok
  have "score s = map (\<lambda>e. cut1 bins (year (fst e))) (variable_series ?df ''max_temp_f'')"
    by blast
  then have "score s = [None, Some (1930, 1950), Some (2010, 2030)]"
    unfolding ser by (simp add: a b c)
  with wf b d show ?thesis by (simp add: ok)
qed

subsection \<open>The cache\<close>

text \<open>
  C6. A first call of a cached stage with a key that is not stored runs the compute
  function once, returns its value and stores it; a second call with the same key
  returns that value and leaves the store and the world as the first call left them,
  whatever compute function the second call is given: the compute function does not
  run again. A call with a stored key returns the stored value and changes nothing.
  This holds for the contract, and for both cached stages of the pipeline, where the
  value is the result of \<^verbatim>\<open>select_data\<close>, or of the download, and the world counts the
  runs of the stage's body.
\<close>

theorem getOrCompute_hit:
  "(fst st (stageId, key) = None \<longrightarrow>
      getOrCompute stageId key f st
        = (fst (f key (snd st)),
           ((fst st)((stageId, key) \<mapsto> fst (f key (snd st))), snd (f key (snd st))))
      \<and> getOrCompute stageId key g (snd (getOrCompute stageId key f st))
        = (fst (f key (snd st)), snd (getOrCompute stageId key f st)))
   \<and> (fst st (stageId, key) = Some v \<longrightarrow> getOrCompute stageId key g st = (v, st))
   \<and> getOrCompute stageId key g (snd (getOrCompute stageId key f st))
     = (fst (getOrCompute stageId key f st), snd (getOrCompute stageId key f st))
   \<and> (fst c (''load_data'', dt, network, station) = None \<longrightarrow>
        load_data_cached fetch dt network station c
          = (fetch (dt, network, station),
             ((fst c)((''load_data'', dt, network, station) \<mapsto> fetch (dt, network, station)),
              Suc (snd c)))
        \<and> load_data_cached fetch' dt network station
              (snd (load_data_cached fetch dt network station c))
          = (fetch (dt, network, station), snd (load_data_cached fetch dt network station c)))
   \<and> load_data_cached fetch' dt network station (snd (load_data_cached fetch dt network station c))
     = (fst (load_data_cached fetch dt network station c),
        snd (load_data_cached fetch dt network station c))
   \<and> (fst c' (''select_data'', dt, df) = None \<longrightarrow>
        select_data_cached dt df c'
          = (select_data dt df,
             ((fst c')((''select_data'', dt, df) \<mapsto> select_data dt df), Suc (snd c')))
        \<and> select_data_cached dt df (snd (select_data_cached dt df c'))
          = (select_data dt df, snd (select_data_cached dt df c')))
   \<and> select_data_cached dt df (snd (select_data_cached dt df c'))
     = (fst (select_data_cached dt df c'), snd (select_data_cached dt df c'))"
proof -
  have miss: "getOrCompute sid k f' st'
     = (fst (f' k (snd st')), ((fst st')((sid, k) \<mapsto> fst (f' k (snd st'))), snd (f' k (snd st'))))"
    if "fst st' (sid, k) = None"
    for sid :: 's and k :: 'k and f' :: "'k \<Rightarrow> 'w \<Rightarrow> 'v \<times> 'w" and st'
    using that by (simp add: getOrCompute_def split: prod.splits)
  have stored: "getOrCompute sid k g' st' = (u, st')"
    if "fst st' (sid, k) = Some u"
    for sid :: 's and k :: 'k and g' :: "'k \<Rightarrow> 'w \<Rightarrow> 'v \<times> 'w" and st' u
    using that by (simp add: getOrCompute_def)
  have again: "getOrCompute sid k g' (snd (getOrCompute sid k f' st'))
     = (fst (getOrCompute sid k f' st'), snd (getOrCompute sid k f' st'))"
    for sid :: 's and k :: 'k and g' f' :: "'k \<Rightarrow> 'w \<Rightarrow> 'v \<times> 'w" and st'
    by (auto simp: getOrCompute_def split: option.splits prod.splits)
  have miss_then_hit: "getOrCompute sid k g' (snd (getOrCompute sid k f' st'))
     = (fst (f' k (snd st')), snd (getOrCompute sid k f' st'))"
    if "fst st' (sid, k) = None"
    for sid :: 's and k :: 'k and g' f' :: "'k \<Rightarrow> 'w \<Rightarrow> 'v \<times> 'w" and st'
    using again [of sid k g' f' st'] miss [OF that, of f'] by simp
  have load_miss: "load_data_cached fetch dt network station c
          = (fetch (dt, network, station),
             ((fst c)((''load_data'', dt, network, station) \<mapsto> fetch (dt, network, station)),
              Suc (snd c)))
        \<and> load_data_cached fetch' dt network station
              (snd (load_data_cached fetch dt network station c))
          = (fetch (dt, network, station), snd (load_data_cached fetch dt network station c))"
    if h: "fst c (''load_data'', dt, network, station) = None"
    unfolding load_data_cached_def
    using miss [OF h, of "\<lambda>k calls. (fetch k, Suc calls)"]
      miss_then_hit [OF h, of "\<lambda>k calls. (fetch' k, Suc calls)" "\<lambda>k calls. (fetch k, Suc calls)"]
    by simp
  have select_miss: "select_data_cached dt df c'
          = (select_data dt df,
             ((fst c')((''select_data'', dt, df) \<mapsto> select_data dt df), Suc (snd c')))
        \<and> select_data_cached dt df (snd (select_data_cached dt df c'))
          = (select_data dt df, snd (select_data_cached dt df c'))"
    if h: "fst c' (''select_data'', dt, df) = None"
    unfolding select_data_cached_def
    using miss [OF h, of "\<lambda>k calls. (select_data (fst k) (snd k), Suc calls)"]
      miss_then_hit [OF h, of "\<lambda>k calls. (select_data (fst k) (snd k), Suc calls)"
        "\<lambda>k calls. (select_data (fst k) (snd k), Suc calls)"]
    by simp
  have load_again: "load_data_cached fetch' dt network station
        (snd (load_data_cached fetch dt network station c))
     = (fst (load_data_cached fetch dt network station c),
        snd (load_data_cached fetch dt network station c))"
    unfolding load_data_cached_def by (rule again)
  have select_again: "select_data_cached dt df (snd (select_data_cached dt df c'))
     = (fst (select_data_cached dt df c'), snd (select_data_cached dt df c'))"
    unfolding select_data_cached_def by (rule again)
  show ?thesis
    using miss [of st stageId key f] miss_then_hit [of st stageId key g f]
      stored [of st stageId key v g] again [of stageId key g f st]
      load_miss load_again select_miss select_again
    by blast
qed

text \<open>
  On an empty store the first call of the cached filter computes the slice of
  2 November and counts one run; the second call returns the same slice with the
  count still at one.
\<close>

theorem getOrCompute_hit_witness:
  "fst (Map.empty :: string \<times> date \<times> cell frame \<rightharpoonup> cell frame, 0::nat)
     (''select_data'', \<lparr>year = 2023, month = 11, day = 2\<rparr>,
      \<lparr>index = [\<lparr>year = 2022, month = 11, day = 2\<rparr>, \<lparr>year = 2022, month = 11, day = 3\<rparr>],
       columns = [(''max_temp_f'', [Some (50::rat), Some 61])]\<rparr>) = None
   \<and> fst (select_data_cached \<lparr>year = 2023, month = 11, day = 2\<rparr>
          \<lparr>index = [\<lparr>year = 2022, month = 11, day = 2\<rparr>, \<lparr>year = 2022, month = 11, day = 3\<rparr>],
           columns = [(''max_temp_f'', [Some 50, Some 61])]\<rparr> (Map.empty, 0))
     = \<lparr>index = [\<lparr>year = 2022, month = 11, day = 2\<rparr>], columns = [(''max_temp_f'', [Some 50])]\<rparr>
   \<and> snd (snd (select_data_cached \<lparr>year = 2023, month = 11, day = 2\<rparr>
          \<lparr>index = [\<lparr>year = 2022, month = 11, day = 2\<rparr>, \<lparr>year = 2022, month = 11, day = 3\<rparr>],
           columns = [(''max_temp_f'', [Some 50, Some 61])]\<rparr> (Map.empty, 0))) = 1
   \<and> fst (select_data_cached \<lparr>year = 2023, month = 11, day = 2\<rparr>
          \<lparr>index = [\<lparr>year = 2022, month = 11, day = 2\<rparr>, \<lparr>year = 2022, month = 11, day = 3\<rparr>],
           columns = [(''max_temp_f'', [Some 50, Some 61])]\<rparr>
          (snd (select_data_cached \<lparr>year = 2023, month = 11, day = 2\<rparr>
             \<lparr>index = [\<lparr>year = 2022, month = 11, day = 2\<rparr>, \<lparr>year = 2022, month = 11, day = 3\<rparr>],
              columns = [(''max_temp_f'', [Some 50, Some 61])]\<rparr> (Map.empty, 0))))
     = \<lparr>index = [\<lparr>year = 2022, month = 11, day = 2\<rparr>], columns = [(''max_temp_f'', [Some 50])]\<rparr>
   \<and> snd (snd (select_data_cached \<lparr>year = 2023, month = 11, day = 2\<rparr>
          \<lparr>index = [\<lparr>year = 2022, month = 11, day = 2\<rparr>, \<lparr>year = 2022, month = 11, day = 3\<rparr>],
           columns = [(''max_temp_f'', [Some 50, Some 61])]\<rparr>
          (snd (select_data_cached \<lparr>year = 2023, month = 11, day = 2\<rparr>
             \<lparr>index = [\<lparr>year = 2022, month = 11, day = 2\<rparr>, \<lparr>year = 2022, month = 11, day = 3\<rparr>],
              columns = [(''max_temp_f'', [Some 50, Some 61])]\<rparr> (Map.empty, 0))))) = 1"
proof -
  let ?dt = "\<lparr>year = 2023, month = 11, day = 2\<rparr>"
  let ?df = "\<lparr>index = [\<lparr>year = 2022, month = 11, day = 2\<rparr>, \<lparr>year = 2022, month = 11, day = 3\<rparr>],
             columns = [(''max_temp_f'', [Some (50::rat), Some 61])]\<rparr>"
  let ?c = "(Map.empty, 0::nat) :: (string \<times> date \<times> cell frame \<rightharpoonup> cell frame) \<times> nat"
  let ?slice = "\<lparr>index = [\<lparr>year = 2022, month = 11, day = 2\<rparr>],
                columns = [(''max_temp_f'', [Some (50::rat)])]\<rparr>"
  have h: "fst ?c (''select_data'', ?dt, ?df) = None" by simp
  have sel: "select_data ?dt ?df = ?slice"
    by (simp add: select_data_def loc_mask_def pick_def)
  note stage = getOrCompute_hit [THEN conjunct2, THEN conjunct2, THEN conjunct2,
      THEN conjunct2, THEN conjunct2, THEN conjunct1, rule_format, OF h]
  from stage
  have first: "select_data_cached ?dt ?df ?c
                 = (select_data ?dt ?df,
                    ((fst ?c)((''select_data'', ?dt, ?df) \<mapsto> select_data ?dt ?df), Suc (snd ?c)))"
    and second: "select_data_cached ?dt ?df (snd (select_data_cached ?dt ?df ?c))
                 = (select_data ?dt ?df, snd (select_data_cached ?dt ?df ?c))"
    by (rule conjunct1, rule conjunct2)
  have a: "fst (select_data_cached ?dt ?df ?c) = ?slice"
    unfolding first sel by simp
  have b: "snd (snd (select_data_cached ?dt ?df ?c)) = 1"
    unfolding first by simp
  have c: "fst (select_data_cached ?dt ?df (snd (select_data_cached ?dt ?df ?c))) = ?slice"
    unfolding second sel by simp
  have d: "snd (snd (select_data_cached ?dt ?df (snd (select_data_cached ?dt ?df ?c)))) = 1"
    unfolding second using b by simp
  from h a b c d show ?thesis by (intro conjI)
qed

end
